theory Spec2Isabelle
  imports Complex_Main "HOL-Library.Multiset"
begin

section \<open>The feature-extraction script \<open>extract.py\<close>\<close>

text \<open>
  The script is written out by the notebook
  \<open>01-aml-walkthrough/99-archive/feature_engineering_keras.ipynb\<close>. It defines the class
  \<open>ImageGenerator\<close> (a \<open>tf.keras.utils.Sequence\<close>) and the function
  \<open>create_bottleneck_features\<close>. Python integers are modelled as \<open>int\<close>, strings as
  \<open>string\<close>, tuples and lists as lists, exceptions as the left summand of a sum type.
\<close>

subsection \<open>Exceptions\<close>

datatype error =
    OSError             \<comment> \<open>\<open>os.listdir\<close> on a path that is not a readable directory\<close>
  | KeyError            \<comment> \<open>subscript of a dictionary at a missing key\<close>
  | ValueError          \<comment> \<open>unpacking a sequence of the wrong length\<close>
  | ZeroDivisionError   \<comment> \<open>\<open>//\<close> or \<open>%\<close> by zero\<close>
  | ImageError          \<comment> \<open>\<open>image.load_img\<close> failing to open or decode a file\<close>
  | IndexError          \<comment> \<open>subscript of an array out of range\<close>

subsection \<open>Library operations the script calls\<close>

text \<open>A traversal that stops at the first exception, as a Python loop or comprehension does.\<close>

fun traverse :: "('a \<Rightarrow> error + 'b) \<Rightarrow> 'a list \<Rightarrow> error + 'b list" where
  "traverse f [] = Inr []"
| "traverse f (x # xs) =
     (case f x of
        Inl e \<Rightarrow> Inl e
      | Inr y \<Rightarrow> (case traverse f xs of Inl e \<Rightarrow> Inl e | Inr ys \<Rightarrow> Inr (y # ys)))"

text \<open>
  A dictionary literal keeps its insertion order, so it is an association list;
  \<open>d.keys()\<close> lists the keys in that order and \<open>d[k]\<close> raises on a missing key.
\<close>

definition dict_keys :: "('k \<times> 'v) list \<Rightarrow> 'k list" where
  "dict_keys d = map fst d"

definition dict_getitem :: "('k \<times> 'v) list \<Rightarrow> 'k \<Rightarrow> error + 'v" where
  "dict_getitem d k = (case map_of d k of None \<Rightarrow> Inl KeyError | Some v \<Rightarrow> Inr v)"

text \<open>
  \<open>os.path.join\<close> on a POSIX system: a component that starts with a slash replaces
  what came before it; otherwise it is appended, after a slash unless the path so far is
  empty or already ends with one.
\<close>

definition startswith_sep :: "string \<Rightarrow> bool" where
  "startswith_sep b = (case b of [] \<Rightarrow> False | c # _ \<Rightarrow> c = CHR ''/'')"

definition endswith_sep :: "string \<Rightarrow> bool" where
  "endswith_sep p = (case rev p of [] \<Rightarrow> False | c # _ \<Rightarrow> c = CHR ''/'')"

definition join_step :: "string \<Rightarrow> string \<Rightarrow> string" where
  "join_step path b =
     (if startswith_sep b then b
      else if path = [] \<or> endswith_sep path then path @ b
      else path @ ''/'' @ b)"

definition path_join :: "string \<Rightarrow> string list \<Rightarrow> string" where
  "path_join a p = foldl join_step a p"

text \<open>
  The file system, as far as the script reads it: \<open>os.listdir\<close> returns the entry names
  of a directory and raises for any other path.
\<close>

type_synonym filesystem = "string \<Rightarrow> string list option"

definition listdir :: "filesystem \<Rightarrow> string \<Rightarrow> error + string list" where
  "listdir fs path = (case fs path of None \<Rightarrow> Inl OSError | Some names \<Rightarrow> Inr names)"

text \<open>
  \<open>random.shuffle\<close> is the Fisher-Yates loop of CPython:
  \<^verbatim>\<open>
  for i in reversed(range(1, len(x))):
      j = randbelow(i + 1)
      x[i], x[j] = x[j], x[i]
  \<close>
  The generator is a parameter \<open>rnd\<close>: its \<open>k\<close>-th raw draw is \<open>rnd k\<close>, and
  \<open>randbelow n\<close> reduces the next draw below \<open>n\<close>. A seed fixes \<open>rnd\<close>.
\<close>

fun shuffle_loop :: "(nat \<Rightarrow> nat) \<Rightarrow> nat \<Rightarrow> nat \<Rightarrow> 'a list \<Rightarrow> 'a list" where
  "shuffle_loop rnd k 0 x = x"
| "shuffle_loop rnd k (Suc i) x =
     (let j = rnd k mod (Suc i + 1)
      in shuffle_loop rnd (Suc k) i (x[Suc i := x ! j, j := x ! Suc i]))"

definition shuffle :: "(nat \<Rightarrow> nat) \<Rightarrow> 'a list \<Rightarrow> 'a list" where
  "shuffle rnd x = shuffle_loop rnd 0 (length x - 1) x"

text \<open>
  \<open>a, b = zip(*pairs)\<close>: \<open>zip\<close> of the unpacked pairs yields the tuple of first
  components and the tuple of second components; with no pair at all it yields nothing,
  and the assignment to two targets raises \<open>ValueError\<close>.
\<close>

definition unzip_pairs :: "('a \<times> 'b) list \<Rightarrow> error + ('a list \<times> 'b list)" where
  "unzip_pairs ps = (if ps = [] then Inl ValueError else Inr (map fst ps, map snd ps))"

text \<open>
  A slice \<open>xs[start:stop]\<close> of a tuple: a negative bound counts from the end, every
  bound is clamped to the length, and an empty range gives the empty tuple.
\<close>

definition slice_bound :: "int \<Rightarrow> int \<Rightarrow> nat" where
  "slice_bound n k = nat (if k < 0 then max (k + n) 0 else min k n)"

definition py_slice :: "'a list \<Rightarrow> int \<Rightarrow> int \<Rightarrow> 'a list" where
  "py_slice xs start stop =
     (let n = int (length xs); lo = slice_bound n start; hi = slice_bound n stop
      in take (hi - lo) (drop lo xs))"

text \<open>\<open>range(n)\<close>: the integers from 0 up to \<open>n - 1\<close>, none when \<open>n \<le> 0\<close>.\<close>

definition py_range :: "int \<Rightarrow> int list" where
  "py_range n = map int [0..<nat n]"

subsection \<open>The class \<open>ImageGenerator\<close>\<close>

text \<open>
  A decoded image has the abstract type \<open>'img\<close>; a batch array is a list of them.
  \<open>image.load_img\<close> followed by \<open>image.img_to_array\<close> is a parameter of type
  \<open>'img loader\<close>. The preprocessing function handed to the constructor is a function on
  batch arrays; it is a Python callable, so it returns a batch array or raises.
\<close>

type_synonym 'img loader = "string \<Rightarrow> error + 'img"

record 'img ImageGenerator =
  image_list :: "string list"
  label_list :: "int list"
  batch_size :: int
  preprocess_fn :: "('img list \<Rightarrow> error + 'img list) option"
  n_batches :: int
  num_classes :: int

definition label_map :: "(string \<times> int) list" where
  "label_map =
     [(''Barren'', 0), (''Cultivated'', 1), (''Developed'', 2),
      (''Forest'', 3), (''Herbaceous'', 4), (''Shrub'', 5)]"

text \<open>
  The comprehension
  \<^verbatim>\<open>
  [(os.path.join(img_dir, folder, image), label_map[folder])
   for folder in folders
   for image in os.listdir(os.path.join(img_dir, folder))]
  \<close>
  The inner loop, for one folder:
\<close>

definition folder_samples :: "filesystem \<Rightarrow> string \<Rightarrow> string \<Rightarrow> error + (string \<times> int) list" where
  "folder_samples fs img_dir folder =
     (case listdir fs (path_join img_dir [folder]) of
        Inl e \<Rightarrow> Inl e
      | Inr names \<Rightarrow>
          traverse (\<lambda>image.
            case dict_getitem label_map folder of
              Inl e \<Rightarrow> Inl e
            | Inr label \<Rightarrow> Inr (path_join img_dir [folder, image], label)) names)"

definition labeled_image_list :: "filesystem \<Rightarrow> string \<Rightarrow> error + (string \<times> int) list" where
  "labeled_image_list fs img_dir =
     (let folders = dict_keys label_map
      in case traverse (folder_samples fs img_dir) folders of
           Inl e \<Rightarrow> Inl e
         | Inr per_folder \<Rightarrow> Inr (concat per_folder))"

text \<open>
  \<^verbatim>\<open>
  self.n_batches = len(self.image_list) // self.batch_size
  if len(self.image_list) % self.batch_size > 0:
      self.n_batches += 1
  \<close>
  \<open>div\<close> and \<open>mod\<close> on \<open>int\<close> round as Python's \<open>//\<close> and \<open>%\<close> do (towards minus
  infinity, the remainder taking the sign of the divisor); division by zero raises.
\<close>

definition count_batches :: "int \<Rightarrow> int \<Rightarrow> error + int" where
  "count_batches n b =
     (if b = 0 then Inl ZeroDivisionError
      else Inr (if n mod b > 0 then n div b + 1 else n div b))"

definition ImageGenerator_init ::
  "filesystem \<Rightarrow> (nat \<Rightarrow> nat) \<Rightarrow> string \<Rightarrow> ('img list \<Rightarrow> error + 'img list) option
     \<Rightarrow> int \<Rightarrow> error + 'img ImageGenerator" where
  "ImageGenerator_init fs rnd img_dir pre b =
     (case labeled_image_list fs img_dir of
        Inl e \<Rightarrow> Inl e
      | Inr samples \<Rightarrow>
          (case unzip_pairs (shuffle rnd samples) of
             Inl e \<Rightarrow> Inl e
           | Inr (images, labels) \<Rightarrow>
               (case count_batches (int (length images)) b of
                  Inl e \<Rightarrow> Inl e
                | Inr nb \<Rightarrow>
                    Inr \<lparr> image_list = images, label_list = labels, batch_size = b,
                          preprocess_fn = pre, n_batches = nb,
                          num_classes = int (length label_map) \<rparr>)))"

text \<open>
  The methods take the object and return their result together with the object as they
  leave it, so that what a call does to the fields is part of the model.
\<close>

definition ImageGenerator_len :: "'img ImageGenerator \<Rightarrow> int \<times> 'img ImageGenerator" where
  "ImageGenerator_len self = (n_batches self, self)"

definition load_images ::
  "'img loader \<Rightarrow> 'img ImageGenerator \<Rightarrow> string list
     \<Rightarrow> (error + 'img list) \<times> 'img ImageGenerator" where
  "load_images ld self pathnames =
     (case traverse ld pathnames of
        Inl e \<Rightarrow> (Inl e, self)
      | Inr images \<Rightarrow>
          (case preprocess_fn self of
             None \<Rightarrow> (Inr images, self)
           | Some f \<Rightarrow> (f images, self)))"

definition batch_pathnames :: "'img ImageGenerator \<Rightarrow> int \<Rightarrow> string list" where
  "batch_pathnames self index =
     py_slice (image_list self) (index * batch_size self) ((index + 1) * batch_size self)"

definition ImageGenerator_getitem ::
  "'img loader \<Rightarrow> 'img ImageGenerator \<Rightarrow> int \<Rightarrow> (error + 'img list) \<times> 'img ImageGenerator" where
  "ImageGenerator_getitem ld self index =
     (let pathnames = batch_pathnames self index
      in load_images ld self pathnames)"

definition get_labels :: "'img ImageGenerator \<Rightarrow> int list \<times> 'img ImageGenerator" where
  "get_labels self = (label_list self, self)"

text \<open>
  A client of the object is a sequence of calls of its three public methods; each call
  receives the object as the call before left it.
\<close>

datatype call = Len | GetItem int | GetLabels

datatype 'img reply = LenReply int | BatchReply "error + 'img list" | LabelsReply "int list"

fun call_method ::
  "'img loader \<Rightarrow> call \<Rightarrow> 'img ImageGenerator \<Rightarrow> 'img reply \<times> 'img ImageGenerator" where
  "call_method ld Len self = (case ImageGenerator_len self of (n, self') \<Rightarrow> (LenReply n, self'))"
| "call_method ld (GetItem index) self =
     (case ImageGenerator_getitem ld self index of (r, self') \<Rightarrow> (BatchReply r, self'))"
| "call_method ld GetLabels self = (case get_labels self of (ls, self') \<Rightarrow> (LabelsReply ls, self'))"

fun run_calls ::
  "'img loader \<Rightarrow> call list \<Rightarrow> 'img ImageGenerator \<Rightarrow> 'img reply list \<times> 'img ImageGenerator" where
  "run_calls ld [] self = ([], self)"
| "run_calls ld (c # cs) self =
     (case call_method ld c self of
        (r, self') \<Rightarrow> (case run_calls ld cs self' of (rs, self'') \<Rightarrow> (r # rs, self'')))"

subsection \<open>The function \<open>create_bottleneck_features\<close>\<close>

text \<open>
  \<open>featurizer.predict_generator(image_generator)\<close> is Keras' loop over a
  \<open>Sequence\<close>: it asks for \<open>len(generator)\<close> batches in index order, runs
  \<open>predict_on_batch\<close> on each and concatenates the outputs. The network's
  \<open>predict_on_batch\<close> is a parameter.
\<close>

fun predict_loop ::
  "('img list \<Rightarrow> 'feat list) \<Rightarrow> 'img loader \<Rightarrow> int list \<Rightarrow> 'img ImageGenerator
     \<Rightarrow> (error + 'feat list list) \<times> 'img ImageGenerator" where
  "predict_loop predict_on_batch ld [] gen = (Inr [], gen)"
| "predict_loop predict_on_batch ld (i # steps) gen =
     (case ImageGenerator_getitem ld gen i of
        (Inl e, gen') \<Rightarrow> (Inl e, gen')
      | (Inr x, gen') \<Rightarrow>
          (case predict_loop predict_on_batch ld steps gen' of
             (Inl e, gen'') \<Rightarrow> (Inl e, gen'')
           | (Inr outs, gen'') \<Rightarrow> (Inr (predict_on_batch x # outs), gen'')))"

definition predict_generator ::
  "('img list \<Rightarrow> 'feat list) \<Rightarrow> 'img loader \<Rightarrow> 'img ImageGenerator
     \<Rightarrow> (error + 'feat list) \<times> 'img ImageGenerator" where
  "predict_generator predict_on_batch ld gen =
     (case ImageGenerator_len gen of
        (steps, gen') \<Rightarrow>
          (case predict_loop predict_on_batch ld (py_range steps) gen' of
             (Inl e, gen'') \<Rightarrow> (Inl e, gen'')
           | (Inr outs, gen'') \<Rightarrow> (Inr (concat outs), gen'')))"

text \<open>The command-line flags the function reads, and the HDF5 file it writes.\<close>

record flags =
  input_data_dir :: string
  output_data_dir :: string
  file_name :: string

record 'feat h5file =
  file_path :: string
  features_dset :: "'feat list"
  labels_dset :: "int list"

text \<open>
  The generator is built with \<open>resnet50.preprocess_input\<close> as its preprocessing
  function and with the default batch size of the constructor, 64.
\<close>

definition create_bottleneck_features ::
  "filesystem \<Rightarrow> (nat \<Rightarrow> nat) \<Rightarrow> 'img loader \<Rightarrow> ('img list \<Rightarrow> error + 'img list)
     \<Rightarrow> ('img list \<Rightarrow> 'feat list) \<Rightarrow> flags \<Rightarrow> error + 'feat h5file" where
  "create_bottleneck_features fs rnd ld preprocess_input predict_on_batch FLAGS =
     (let images_dir = input_data_dir FLAGS
      in case ImageGenerator_init fs rnd images_dir (Some preprocess_input) 64 of
           Inl e \<Rightarrow> Inl e
         | Inr image_generator \<Rightarrow>
             (case predict_generator predict_on_batch ld image_generator of
                (Inl e, _) \<Rightarrow> Inl e
              | (Inr features, image_generator') \<Rightarrow>
                  (case get_labels image_generator' of
                     (labels, _) \<Rightarrow>
                       Inr \<lparr> file_path = path_join (output_data_dir FLAGS) [file_name FLAGS],
                             features_dset = features, labels_dset = labels \<rparr>)))"

subsection \<open>Concrete inputs\<close>

text \<open>
  An input directory whose six class folders exist and hold no file, and one that holds
  five files in three of the folders; two random sources.
\<close>

definition empty_class_dirs :: filesystem where
  "empty_class_dirs =
     map_of (map (\<lambda>folder. (path_join ''aerialtiny'' [folder], [])) (dict_keys label_map))"

definition tiny_dirs :: filesystem where
  "tiny_dirs =
     map_of [(''aerialtiny/Barren'', [''a.png'', ''b.png'']),
             (''aerialtiny/Cultivated'', []),
             (''aerialtiny/Developed'', [''c.png'']),
             (''aerialtiny/Forest'', []),
             (''aerialtiny/Herbaceous'', []),
             (''aerialtiny/Shrub'', [''d.png'', ''e.png''])]"

definition tiny_samples :: "(string \<times> int) list" where
  "tiny_samples =
     [(''aerialtiny/Barren/a.png'', 0), (''aerialtiny/Barren/b.png'', 0),
      (''aerialtiny/Developed/c.png'', 2), (''aerialtiny/Shrub/d.png'', 5),
      (''aerialtiny/Shrub/e.png'', 5)]"

definition rnd_a :: "nat \<Rightarrow> nat" where
  "rnd_a k = k + 2"

definition rnd_b :: "nat \<Rightarrow> nat" where
  "rnd_b k = 0"

text \<open>
  The generators the constructor builds over \<open>tiny_dirs\<close> with these sources, for a
  given preprocessing function, batch size and batch count.
\<close>

definition tiny_gen_a ::
  "('img list \<Rightarrow> error + 'img list) option \<Rightarrow> int \<Rightarrow> int \<Rightarrow> 'img ImageGenerator" where
  "tiny_gen_a pre b nb =
     \<lparr> image_list = [''aerialtiny/Barren/a.png'', ''aerialtiny/Shrub/e.png'',
                       ''aerialtiny/Barren/b.png'', ''aerialtiny/Shrub/d.png'',
                       ''aerialtiny/Developed/c.png''],
       label_list = [0, 5, 0, 5, 2], batch_size = b, preprocess_fn = pre, n_batches = nb,
       num_classes = 6 \<rparr>"

definition tiny_gen_b ::
  "('img list \<Rightarrow> error + 'img list) option \<Rightarrow> int \<Rightarrow> int \<Rightarrow> 'img ImageGenerator" where
  "tiny_gen_b pre b nb =
     \<lparr> image_list = [''aerialtiny/Barren/b.png'', ''aerialtiny/Developed/c.png'',
                       ''aerialtiny/Shrub/d.png'', ''aerialtiny/Shrub/e.png'',
                       ''aerialtiny/Barren/a.png''],
       label_list = [0, 2, 5, 5, 0], batch_size = b, preprocess_fn = pre, n_batches = nb,
       num_classes = 6 \<rparr>"

text \<open>A loader that decodes every file to its path, and one that fails on every file.\<close>

definition path_loader :: "string loader" where
  "path_loader pathname = Inr pathname"

definition failing_loader :: "string loader" where
  "failing_loader pathname = Inl ImageError"

text \<open>
  Two preprocessing functions: one that reverses the batch, and one that keeps the batch
  but raises on the empty array, as \<open>resnet50.preprocess_input\<close> does when it subscripts
  the last axis of an array of shape \<open>(0,)\<close>.
\<close>

definition reverse_batch :: "string list \<Rightarrow> error + string list" where
  "reverse_batch images = Inr (rev images)"

definition strict_batch :: "string list \<Rightarrow> error + string list" where
  "strict_batch images = (if images = [] then Inl IndexError else Inr images)"

text \<open>
  A run of the whole function over \<open>tiny_dirs\<close>: stand-ins for the normalisation and
  for the network that work image by image, the flags, and the file that is written. The
  normalisation of a batch raises on the empty array.
\<close>

definition strip_dir :: "string \<Rightarrow> string" where
  "strip_dir im = drop 11 im"

definition strip_dirs :: "string list \<Rightarrow> error + string list" where
  "strip_dirs images = (if images = [] then Inl IndexError else Inr (map strip_dir images))"

definition folder_of :: "string \<Rightarrow> string" where
  "folder_of im = takeWhile (\<lambda>c. c \<noteq> CHR ''/'') im"

definition tiny_flags :: flags where
  "tiny_flags =
     \<lparr> input_data_dir = ''aerialtiny'', output_data_dir = ''bottleneck_features'',
       file_name = ''aerial_bottleneck_resnet50.h5'' \<rparr>"

definition tiny_out :: "string h5file" where
  "tiny_out =
     \<lparr> file_path = ''bottleneck_features/aerial_bottleneck_resnet50.h5'',
       features_dset = [''Barren'', ''Shrub'', ''Barren'', ''Shrub'', ''Developed''],
       labels_dset = [0, 5, 0, 5, 2] \<rparr>"

section \<open>Properties\<close>

subsection \<open>Auxiliary facts\<close>

lemma traverse_Inr_map: "traverse f xs = Inr ys \<Longrightarrow> map f xs = map Inr ys"
  by (induction xs arbitrary: ys) (auto split: sum.splits)

lemma traverse_Inr_length: "traverse f xs = Inr ys \<Longrightarrow> length ys = length xs"
  by (induction xs arbitrary: ys) (auto split: sum.splits)

lemma traverse_all_Inr:
  "(\<And>x. x \<in> set xs \<Longrightarrow> f x = Inr (g x)) \<Longrightarrow> traverse f xs = Inr (map g xs)"
  by (induction xs) auto

lemma traverse_Inr_iff:
  "(\<exists>ys. traverse f xs = Inr ys) \<longleftrightarrow> (\<forall>x \<in> set xs. \<exists>y. f x = Inr y)"
  by (induction xs) (auto split: sum.splits)

lemma traverse_Inl:
  "x \<in> set xs \<Longrightarrow> f x = Inl e \<Longrightarrow> \<exists>e'. traverse f xs = Inl e'"
  by (induction xs) (auto split: sum.splits)

lemma shuffle_loop_mset: "i < length x \<Longrightarrow> mset (shuffle_loop rnd k i x) = mset x"
proof (induction i arbitrary: k x)
  case 0
  then show ?case by simp
next
  case (Suc i)
  let ?j = "rnd k mod (Suc i + 1)"
  have "?j < Suc i + 1" by (rule mod_less_divisor) simp
  with Suc.prems have j: "?j < length x" by arith
  have "mset (x[Suc i := x ! ?j, ?j := x ! Suc i]) = mset x"
    using mset_swap [OF j Suc.prems] by simp
  moreover have "i < length (x[Suc i := x ! ?j, ?j := x ! Suc i])"
    using Suc.prems by simp
  ultimately show ?case
    using Suc.IH by (simp add: Let_def)
qed

lemma shuffle_mset: "mset (shuffle rnd x) = mset x"
proof (cases x)
  case Nil
  then show ?thesis by (simp add: shuffle_def)
next
  case (Cons a as)
  then show ?thesis
    unfolding shuffle_def by (intro shuffle_loop_mset) simp
qed

lemma shuffle_length: "length (shuffle rnd x) = length x"
  using shuffle_mset [of rnd x] by (metis size_mset)

lemma empty_class_dirs_listing: "labeled_image_list empty_class_dirs ''aerialtiny'' = Inr []"
  by (simp add: labeled_image_list_def empty_class_dirs_def dict_keys_def label_map_def
      folder_samples_def listdir_def path_join_def join_step_def startswith_sep_def
      endswith_sep_def)

lemma tiny_dirs_listing: "labeled_image_list tiny_dirs ''aerialtiny'' = Inr tiny_samples"
  by code_simp

lemma tiny_shuffle_a:
  "shuffle rnd_a tiny_samples =
     [(''aerialtiny/Barren/a.png'', 0), (''aerialtiny/Shrub/e.png'', 5),
      (''aerialtiny/Barren/b.png'', 0), (''aerialtiny/Shrub/d.png'', 5),
      (''aerialtiny/Developed/c.png'', 2)]"
  by code_simp

lemma tiny_shuffle_b:
  "shuffle rnd_b tiny_samples =
     [(''aerialtiny/Barren/b.png'', 0), (''aerialtiny/Developed/c.png'', 2),
      (''aerialtiny/Shrub/d.png'', 5), (''aerialtiny/Shrub/e.png'', 5),
      (''aerialtiny/Barren/a.png'', 0)]"
  by code_simp

lemma tiny_init_a:
  "b \<noteq> 0 \<Longrightarrow> ImageGenerator_init tiny_dirs rnd_a ''aerialtiny'' pre b =
     Inr (tiny_gen_a pre b (if 5 mod b > 0 then 5 div b + 1 else 5 div b))"
  by (simp add: ImageGenerator_init_def tiny_dirs_listing tiny_shuffle_a unzip_pairs_def
      count_batches_def tiny_gen_a_def label_map_def)

lemma tiny_init_b:
  "b \<noteq> 0 \<Longrightarrow> ImageGenerator_init tiny_dirs rnd_b ''aerialtiny'' pre b =
     Inr (tiny_gen_b pre b (if 5 mod b > 0 then 5 div b + 1 else 5 div b))"
  by (simp add: ImageGenerator_init_def tiny_dirs_listing tiny_shuffle_b unzip_pairs_def
      count_batches_def tiny_gen_b_def label_map_def)

text \<open>What a successful construction says about its arguments and the fields it sets.\<close>

lemma init_Inr_fields:
  assumes "ImageGenerator_init fs rnd img_dir pre b = Inr g"
  shows "\<exists>samples. labeled_image_list fs img_dir = Inr samples \<and> samples \<noteq> [] \<and>
           image_list g = map fst (shuffle rnd samples) \<and>
           label_list g = map snd (shuffle rnd samples) \<and>
           batch_size g = b \<and> b \<noteq> 0 \<and> preprocess_fn g = pre \<and>
           count_batches (int (length samples)) b = Inr (n_batches g) \<and>
           num_classes g = int (length label_map)"
proof -
  from assms obtain samples where s: "labeled_image_list fs img_dir = Inr samples"
    by (auto simp: ImageGenerator_init_def split: sum.splits)
  from assms s have ne: "shuffle rnd samples \<noteq> []"
    by (auto simp: ImageGenerator_init_def unzip_pairs_def split: sum.splits if_splits)
  from assms s ne obtain nb where
    nb: "count_batches (int (length (shuffle rnd samples))) b = Inr nb"
    and g: "g = \<lparr> image_list = map fst (shuffle rnd samples),
                   label_list = map snd (shuffle rnd samples), batch_size = b,
                   preprocess_fn = pre, n_batches = nb,
                   num_classes = int (length label_map) \<rparr>"
    by (auto simp: ImageGenerator_init_def unzip_pairs_def split: sum.splits)
  from nb have "b \<noteq> 0" by (auto simp: count_batches_def split: if_splits)
  moreover from ne have "samples \<noteq> []"
    using shuffle_length [of rnd samples] by auto
  ultimately show ?thesis
    using s nb g by (simp add: shuffle_length)
qed

lemma count_batches_pos:
  "0 < b \<Longrightarrow> count_batches n b = Inr (n div b + (if n mod b \<noteq> 0 then 1 else 0))"
  by (simp add: count_batches_def order_less_le)

lemma ceiling_div_mod:
  fixes n b :: int
  assumes "0 < b"
  shows "\<lceil>of_int n / (of_int b :: real)\<rceil> = n div b + (if n mod b \<noteq> 0 then 1 else 0)"
proof -
  have "\<lceil>of_int n / (of_int b :: real)\<rceil> = - ((- n) div b)"
    by (metis ceiling_divide_eq_div floor_divide_of_int_eq ceiling_def minus_divide_left
        of_int_minus)
  also have "\<dots> = n div b + (if n mod b \<noteq> 0 then 1 else 0)"
    using assms by (auto simp: zdiv_zminus1_eq_if)
  finally show ?thesis .
qed

subsection \<open>An empty sample list\<close>

text \<open>
  Claim C4 says that constructing an \<open>ImageGenerator\<close> over an input directory with no
  image file succeeds and gives zero batches. The constructor does not get as far as the
  batch count: with the six class folders present and empty, the sample list is empty,
  \<open>zip(*labeled_image_list)\<close> yields nothing, and the assignment of its result to
  \<open>self.image_list, self.label_list\<close> raises \<open>ValueError\<close>, whatever the random
  source, the preprocessing function and the batch size are.
\<close>

theorem init_empty_dirs_raises:
  "ImageGenerator_init empty_class_dirs rnd ''aerialtiny'' pre b = Inl ValueError"
  by (simp add: ImageGenerator_init_def empty_class_dirs_listing shuffle_def unzip_pairs_def)

subsection \<open>The batch count\<close>

text \<open>
  Claim C1: whenever the constructor accepts its arguments and the batch size \<open>b\<close> is
  positive, the stored batch count, which \<open>__len__\<close> returns, is the quotient of the
  sample count \<open>n\<close> by \<open>b\<close>, plus one when the remainder is not zero, and this number is
  the ceiling of \<open>n / b\<close>. The sample count is the length of the list the constructor
  built from the directory listing, and of the stored image list.
\<close>

theorem init_n_batches_ceiling:
  assumes "ImageGenerator_init fs rnd img_dir pre b = Inr g" and "0 < b"
  shows "\<exists>samples. labeled_image_list fs img_dir = Inr samples \<and>
           length (image_list g) = length samples \<and>
           fst (ImageGenerator_len g) = n_batches g \<and>
           n_batches g =
             int (length samples) div b + (if int (length samples) mod b \<noteq> 0 then 1 else 0) \<and>
           n_batches g = \<lceil>of_int (int (length samples)) / (of_int b :: real)\<rceil>"
proof -
  from init_Inr_fields [OF assms(1)] obtain samples where
    s: "labeled_image_list fs img_dir = Inr samples"
    and il: "image_list g = map fst (shuffle rnd samples)"
    and nb: "count_batches (int (length samples)) b = Inr (n_batches g)"
    by blast
  from nb assms(2) have
    "n_batches g = int (length samples) div b + (if int (length samples) mod b \<noteq> 0 then 1 else 0)"
    by (simp add: count_batches_pos)
  then show ?thesis
    using s il ceiling_div_mod [OF assms(2), of "int (length samples)"]
    by (simp add: ImageGenerator_len_def shuffle_length)
qed

text \<open>Five samples in batches of two: three batches.\<close>

theorem init_n_batches_ceiling_witness:
  "ImageGenerator_init tiny_dirs rnd_a ''aerialtiny'' None 2 =
     Inr (tiny_gen_a None 2 3 :: string ImageGenerator) \<and>
   (0::int) < 2 \<and>
   (\<exists>samples. labeled_image_list tiny_dirs ''aerialtiny'' = Inr samples \<and>
      length samples = 5 \<and>
      fst (ImageGenerator_len (tiny_gen_a None 2 3 :: string ImageGenerator)) = 3 \<and>
      \<lceil>of_int (int (length samples)) / (of_int 2 :: real)\<rceil> = 3)"
proof -
  have h: "ImageGenerator_init tiny_dirs rnd_a ''aerialtiny'' None 2 =
             Inr (tiny_gen_a None 2 3 :: string ImageGenerator)"
    by (simp add: tiny_init_a)
  have p: "(0::int) < 2" by simp
  from init_n_batches_ceiling [OF h p] show ?thesis
    using h by (auto simp: tiny_gen_a_def)
qed

subsection \<open>Batches as slices of the image list\<close>

text \<open>With bounds that are not negative a slice is a \<open>take\<close> of a \<open>drop\<close>.\<close>

lemma slice_nonneg:
  "0 \<le> lo \<Longrightarrow> 0 \<le> hi \<Longrightarrow> py_slice xs lo hi = take (nat hi - nat lo) (drop (nat lo) xs)"
  unfolding py_slice_def slice_bound_def Let_def
  by (cases "nat lo \<le> length xs"; cases "nat hi \<le> length xs") (auto simp: min_def nat_le_iff)

lemma batch_pathnames_take_drop:
  assumes "0 < batch_size g" "0 \<le> i"
  shows "batch_pathnames g i =
           take (nat (batch_size g)) (drop (nat i * nat (batch_size g)) (image_list g))"
proof -
  have "nat ((i + 1) * batch_size g) - nat (i * batch_size g) = nat (batch_size g)"
    using assms by (simp add: nat_diff_distrib' algebra_simps flip: nat_diff_distrib)
  moreover have "nat (i * batch_size g) = nat i * nat (batch_size g)"
    using assms by (simp add: nat_mult_distrib)
  ultimately show ?thesis
    using assms unfolding batch_pathnames_def by (subst slice_nonneg) simp_all
qed

lemma concat_chunks:
  "concat (map (\<lambda>i. take b (drop (i * b) xs)) [0..<k]) = take (k * b) xs"
proof (induction k)
  case 0
  then show ?case by simp
next
  case (Suc k)
  have "take (k * b) xs @ take b (drop (k * b) xs) = take (k * b + b) xs"
    by (simp add: take_add)
  with Suc show ?case by (simp add: add.commute)
qed

text \<open>The batch count times the batch size covers the list; one batch fewer does not.\<close>

lemma batches_cover:
  fixes n b :: int
  assumes "0 < b"
  shows "n \<le> (n div b + (if n mod b \<noteq> 0 then 1 else 0)) * b"
proof -
  have eq: "n div b * b + n mod b = n" by simp
  have lt: "n mod b < b" using assms by simp
  show ?thesis
  proof (cases "n mod b = 0")
    case True
    with eq show ?thesis by simp
  next
    case False
    have "n \<le> n div b * b + b" using eq lt by linarith
    with False show ?thesis by (simp add: algebra_simps)
  qed
qed

lemma batches_cover_nat:
  assumes "0 < b" "nb = int n div b + (if int n mod b \<noteq> 0 then 1 else 0)"
  shows "n \<le> nat nb * nat b"
proof -
  have "0 \<le> nb" using assms by (simp add: pos_imp_zdiv_nonneg_iff)
  moreover have "int n \<le> nb * b" using batches_cover [OF assms(1), of "int n"] assms(2) by simp
  ultimately show ?thesis using assms(1)
    by (metis nat_int nat_mono nat_mult_distrib)
qed

lemma concat_batch_pathnames:
  assumes "0 < batch_size g"
    and "n_batches g = int (length (image_list g)) div batch_size g
           + (if int (length (image_list g)) mod batch_size g \<noteq> 0 then 1 else 0)"
  shows "concat (map (batch_pathnames g) (py_range (n_batches g))) = image_list g"
proof -
  have "map (batch_pathnames g) (py_range (n_batches g)) =
          map (\<lambda>i. take (nat (batch_size g)) (drop (i * nat (batch_size g)) (image_list g)))
            [0..<nat (n_batches g)]"
    using assms(1) by (simp add: py_range_def batch_pathnames_take_drop comp_def)
  then have "concat (map (batch_pathnames g) (py_range (n_batches g))) =
               take (nat (n_batches g) * nat (batch_size g)) (image_list g)"
    by (simp add: concat_chunks)
  also have "\<dots> = image_list g"
    using batches_cover_nat [OF assms] by simp
  finally show ?thesis .
qed

lemma init_batch_count:
  assumes "ImageGenerator_init fs rnd img_dir pre b = Inr g" and "0 < b"
  shows "0 < batch_size g \<and> batch_size g = b \<and>
         n_batches g = int (length (image_list g)) div batch_size g
           + (if int (length (image_list g)) mod batch_size g \<noteq> 0 then 1 else 0)"
  using init_Inr_fields [OF assms(1)] assms(2)
  by (auto simp: count_batches_pos shuffle_length)


lemma traverse_take: "traverse f xs = Inr ys \<Longrightarrow> traverse f (take n xs) = Inr (take n ys)"
proof (induction xs arbitrary: ys n)
  case Nil
  then show ?case by simp
next
  case (Cons x xs)
  then show ?case by (cases n) (auto split: sum.splits)
qed

lemma traverse_drop: "traverse f xs = Inr ys \<Longrightarrow> traverse f (drop n xs) = Inr (drop n ys)"
proof (induction xs arbitrary: ys n)
  case Nil
  then show ?case by simp
next
  case (Cons x xs)
  then show ?case by (cases n) (auto split: sum.splits)
qed

lemma getitem_decoded:
  assumes "0 < batch_size g" "0 \<le> i" "traverse ld (image_list g) = Inr imgs"
  shows "ImageGenerator_getitem ld g i =
           ((case preprocess_fn g of None \<Rightarrow> Inr | Some f \<Rightarrow> f)
              (take (nat (batch_size g)) (drop (nat i * nat (batch_size g)) imgs)), g)"
proof -
  have "traverse ld (batch_pathnames g i) =
          Inr (take (nat (batch_size g)) (drop (nat i * nat (batch_size g)) imgs))"
    using assms by (simp add: batch_pathnames_take_drop traverse_take traverse_drop)
  then show ?thesis
    by (simp add: ImageGenerator_getitem_def load_images_def split: option.splits)
qed

text \<open>
  Claim C2, as amended: for every generator constructed with a positive batch size, the
  slices of the image list that \<open>__getitem__(0)\<close>, \<open>\<dots>\<close>, \<open>__getitem__(n_batches - 1)\<close>
  take, concatenated in index order, are the image list itself: every entry once, in the
  shuffled order, none missing. When every file decodes and no preprocessing function was
  given, the batches these calls return, concatenated, are the decoded images of the
  whole list in that order.
\<close>

theorem batches_concat_is_image_list:
  assumes "ImageGenerator_init fs rnd img_dir pre b = Inr g" and "0 < b"
  shows "concat (map (batch_pathnames g) (py_range (n_batches g))) = image_list g \<and>
         (\<forall>imgs. traverse ld (image_list g) = Inr imgs \<longrightarrow> pre = None \<longrightarrow>
            (\<exists>batches.
               map (\<lambda>i. fst (ImageGenerator_getitem ld g i)) (py_range (n_batches g)) =
                 map Inr batches \<and>
               concat batches = imgs))"
proof (intro conjI allI impI)
  note bc = init_batch_count [OF assms]
  show "concat (map (batch_pathnames g) (py_range (n_batches g))) = image_list g"
    using bc by (intro concat_batch_pathnames) simp_all
next
  fix imgs
  assume ld: "traverse ld (image_list g) = Inr imgs" and none: "pre = None"
  note bc = init_batch_count [OF assms]
  from init_Inr_fields [OF assms(1)] none have pf: "preprocess_fn g = None" by auto
  let ?chunk = "\<lambda>i. take (nat (batch_size g)) (drop (i * nat (batch_size g)) imgs)"
  let ?batches = "map ?chunk [0..<nat (n_batches g)]"
  have "map (\<lambda>i. fst (ImageGenerator_getitem ld g i)) (py_range (n_batches g)) =
          map Inr ?batches"
    using bc ld pf by (simp add: py_range_def getitem_decoded comp_def)
  moreover have "concat ?batches = imgs"
  proof -
    have "length imgs = length (image_list g)" using ld by (rule traverse_Inr_length)
    then have "length imgs \<le> nat (n_batches g) * nat (batch_size g)"
      using batches_cover_nat [of "batch_size g" "n_batches g" "length (image_list g)"] bc
      by simp
    then show ?thesis by (simp add: concat_chunks)
  qed
  ultimately show "\<exists>batches.
      map (\<lambda>i. fst (ImageGenerator_getitem ld g i)) (py_range (n_batches g)) = map Inr batches \<and>
      concat batches = imgs"
    by blast
qed

text \<open>Five samples in three batches of sizes 2, 2 and 1.\<close>

lemma tiny_paths_load:
  "traverse path_loader (image_list (tiny_gen_a pre b nb :: string ImageGenerator)) =
     Inr (image_list (tiny_gen_a pre b nb :: string ImageGenerator))"
  by (simp add: tiny_gen_a_def path_loader_def)

theorem batches_concat_is_image_list_witness:
  "ImageGenerator_init tiny_dirs rnd_a ''aerialtiny'' None 2 =
     Inr (tiny_gen_a None 2 3 :: string ImageGenerator) \<and>
   (0::int) < 2 \<and>
   concat (map (batch_pathnames (tiny_gen_a None 2 3 :: string ImageGenerator)) (py_range 3)) =
     [''aerialtiny/Barren/a.png'', ''aerialtiny/Shrub/e.png'', ''aerialtiny/Barren/b.png'',
      ''aerialtiny/Shrub/d.png'', ''aerialtiny/Developed/c.png''] \<and>
   traverse path_loader (image_list (tiny_gen_a None 2 3 :: string ImageGenerator)) =
     Inr (image_list (tiny_gen_a None 2 3 :: string ImageGenerator)) \<and>
   (\<exists>batches.
      map (\<lambda>i. fst (ImageGenerator_getitem path_loader (tiny_gen_a None 2 3) i)) (py_range 3) =
        map Inr batches \<and>
      concat batches = image_list (tiny_gen_a None 2 3 :: string ImageGenerator))"
proof -
  have h: "ImageGenerator_init tiny_dirs rnd_a ''aerialtiny'' None 2 =
             Inr (tiny_gen_a None 2 3 :: string ImageGenerator)"
    by (simp add: tiny_init_a)
  have p: "(0::int) < 2" by simp
  have nb: "n_batches (tiny_gen_a None 2 3 :: string ImageGenerator) = 3"
    and il: "image_list (tiny_gen_a None 2 3 :: string ImageGenerator) =
      [''aerialtiny/Barren/a.png'', ''aerialtiny/Shrub/e.png'', ''aerialtiny/Barren/b.png'',
       ''aerialtiny/Shrub/d.png'', ''aerialtiny/Developed/c.png'']"
    by (simp_all add: tiny_gen_a_def)
  from batches_concat_is_image_list [OF h p, of path_loader] show ?thesis
    using h tiny_paths_load [of None 2 3] unfolding nb il by simp
qed

text \<open>
  The constructor accepts a negative batch size. With five samples and a batch size of
  \<open>-1\<close> the batch count is \<open>5 // -1 = -5\<close>, there is no batch index below it, and the
  concatenation of no batch is empty, not the image list.
\<close>

theorem batches_concat_counterexample:
  "ImageGenerator_init tiny_dirs rnd_a ''aerialtiny'' None (- 1) =
     Inr (tiny_gen_a None (- 1) (- 5) :: string ImageGenerator) \<and>
   concat (map (batch_pathnames (tiny_gen_a None (- 1) (- 5) :: string ImageGenerator))
     (py_range (n_batches (tiny_gen_a None (- 1) (- 5) :: string ImageGenerator)))) \<noteq>
     image_list (tiny_gen_a None (- 1) (- 5) :: string ImageGenerator)"
  by (simp add: tiny_init_a) (simp add: tiny_gen_a_def py_range_def)

subsection \<open>The shape of one batch\<close>

text \<open>A negative batch size gives a negative batch count.\<close>

lemma count_batches_neg:
  assumes "b < 0" "0 < n" "count_batches n b = Inr nb"
  shows "nb < 0"
proof -
  have "n mod b \<le> 0" using assms(1) by simp
  with assms have "nb = n div b" by (auto simp: count_batches_def split: if_splits)
  then show ?thesis using assms(1,2) by (simp add: neg_imp_zdiv_neg_iff)
qed

lemma shuffle_Nil_iff: "shuffle rnd x = [] \<longleftrightarrow> x = []"
  using shuffle_length [of rnd x] by (metis length_0_conv)

lemma init_Inr_params:
  assumes "ImageGenerator_init fs rnd img_dir pre b = Inr g"
  shows "batch_size g = b" "b \<noteq> 0" "preprocess_fn g = pre"
    "num_classes g = int (length label_map)" "length (label_list g) = length (image_list g)"
    "image_list g \<noteq> []"
    "count_batches (int (length (image_list g))) b = Inr (n_batches g)"
  using init_Inr_fields [OF assms] by (auto simp: shuffle_length shuffle_Nil_iff)

lemma init_index_in_range_pos:
  assumes "ImageGenerator_init fs rnd img_dir pre b = Inr g" and "0 \<le> i" and "i < n_batches g"
  shows "0 < b"
proof (rule ccontr)
  assume "\<not> 0 < b"
  note p = init_Inr_params [OF assms(1)]
  from \<open>\<not> 0 < b\<close> p(2) have "b < 0" by simp
  moreover from p(6) have "0 < int (length (image_list g))" by simp
  ultimately have "n_batches g < 0" using p(7) by (rule count_batches_neg)
  with assms(2,3) show False by simp
qed

text \<open>The length of chunk \<open>I\<close> of a list of length \<open>N\<close> cut into chunks of \<open>B\<close>.\<close>

lemma chunk_length_full:
  fixes N B I :: nat
  assumes "0 < B" "I + 1 < N div B + (if N mod B \<noteq> 0 then 1 else 0)"
  shows "min B (N - I * B) = B"
proof -
  from assms(2) have "I + 1 \<le> N div B" by (simp split: if_splits)
  then have "(I + 1) * B \<le> N div B * B" by (rule mult_le_mono1)
  also have "N div B * B \<le> N" by simp
  finally have "I * B + B \<le> N" by simp
  then show ?thesis by simp
qed

lemma chunk_length_last:
  fixes N B I :: nat
  assumes "0 < B" "I + 1 = N div B + (if N mod B \<noteq> 0 then 1 else 0)"
  shows "min B (N - I * B) = (if N mod B = 0 then B else N mod B)"
proof (cases "N mod B = 0")
  case True
  with assms(2) have "N div B = I + 1" by simp
  moreover have "N = N div B * B" using True by (metis add.right_neutral div_mult_mod_eq)
  ultimately have "N = I * B + B" by simp
  with True show ?thesis by simp
next
  case False
  with assms(2) have "N div B = I" by simp
  then have "N = I * B + N mod B" by (metis div_mult_mod_eq)
  then have "N - I * B = N mod B" by simp
  moreover have "N mod B < B" using assms(1) by simp
  ultimately show ?thesis using False by simp
qed

lemma n_batches_nat:
  assumes "0 < b"
    and "nb = int N div b + (if int N mod b \<noteq> 0 then 1 else 0)"
  shows "nb = int (N div nat b + (if N mod nat b \<noteq> 0 then 1 else 0))"
proof -
  obtain B where B: "b = int B" using assms(1) by (metis nat_0_le order_less_imp_le)
  show ?thesis unfolding assms(2) B
    by (simp add: zdiv_int flip: zmod_int)
qed

lemma batch_length:
  assumes b: "0 < batch_size g" and i: "0 \<le> i" "i < n_batches g"
    and nb: "n_batches g = int (length (image_list g)) div batch_size g
           + (if int (length (image_list g)) mod batch_size g \<noteq> 0 then 1 else 0)"
  shows "(i < n_batches g - 1 \<longrightarrow> length (batch_pathnames g i) = nat (batch_size g)) \<and>
         (i = n_batches g - 1 \<longrightarrow>
            length (batch_pathnames g i) =
              (if int (length (image_list g)) mod batch_size g = 0 then nat (batch_size g)
               else nat (int (length (image_list g)) mod batch_size g)))"
proof -
  let ?N = "length (image_list g)" and ?B = "nat (batch_size g)" and ?I = "nat i"
  have B: "0 < ?B" using b by simp
  have len: "length (batch_pathnames g i) = min ?B (?N - ?I * ?B)"
    using b i(1) by (simp add: batch_pathnames_take_drop min.commute)
  have NB: "n_batches g = int (?N div ?B + (if ?N mod ?B \<noteq> 0 then 1 else 0))"
    using n_batches_nat [OF b nb] .
  have md: "int ?N mod batch_size g = int (?N mod ?B)"
    using b by (metis nat_0_le order_less_imp_le zmod_int)
  have I: "int ?I = i" using i(1) by simp
  have full: "length (batch_pathnames g i) = ?B" if "i < n_batches g - 1"
  proof -
    from that I have "int (?I + 1) < n_batches g" by simp
    then have "int (?I + 1) < int (?N div ?B + (if ?N mod ?B \<noteq> 0 then 1 else 0))"
      by (simp only: NB)
    then have "?I + 1 < ?N div ?B + (if ?N mod ?B \<noteq> 0 then 1 else 0)"
      by (simp only: of_nat_less_iff)
    from chunk_length_full [OF B this] len show ?thesis by simp
  qed
  have last: "length (batch_pathnames g i) = (if ?N mod ?B = 0 then ?B else ?N mod ?B)"
    if "i = n_batches g - 1"
  proof -
    from that I have "int (?I + 1) = n_batches g" by simp
    then have "int (?I + 1) = int (?N div ?B + (if ?N mod ?B \<noteq> 0 then 1 else 0))"
      by (simp only: NB)
    then have "?I + 1 = ?N div ?B + (if ?N mod ?B \<noteq> 0 then 1 else 0)"
      by (simp only: of_nat_eq_iff)
    from chunk_length_last [OF B this] len show ?thesis by simp
  qed
  show ?thesis using full last unfolding md by simp
qed

text \<open>
  Claim C6: for a constructed generator and a batch index \<open>i\<close> with
  \<open>0 \<le> i < n_batches\<close>, the batch size is positive, and \<open>__getitem__(i)\<close> works on the
  contiguous part of the image list that starts at position \<open>i * batch_size\<close> and stops
  before position \<open>(i + 1) * batch_size\<close> or at the end of the list. When the files of
  that part decode, the batch the call returns is made of their images, in order: image
  \<open>k\<close> of the batch is the decoded file at position \<open>i * batch_size + k\<close> of the list (the
  batch is handed to the preprocessing function when there is one). Every batch but the
  last has exactly \<open>batch_size\<close> images; the last has \<open>n mod batch_size\<close> images when
  that remainder is not zero, and \<open>batch_size\<close> images otherwise. When a file of that
  part does not decode, the call raises.
\<close>

theorem getitem_contiguous_batch:
  assumes "ImageGenerator_init fs rnd img_dir pre b = Inr g" and "0 \<le> i" and "i < n_batches g"
  shows "0 < b \<and>
         batch_pathnames g i = take (nat b) (drop (nat (i * b)) (image_list g)) \<and>
         (\<forall>k < length (batch_pathnames g i).
            batch_pathnames g i ! k = image_list g ! (nat (i * b) + k)) \<and>
         (i < n_batches g - 1 \<longrightarrow> length (batch_pathnames g i) = nat b) \<and>
         (i = n_batches g - 1 \<longrightarrow>
            length (batch_pathnames g i) =
              (if int (length (image_list g)) mod b = 0 then nat b
               else nat (int (length (image_list g)) mod b))) \<and>
         ((\<forall>pathname \<in> set (batch_pathnames g i). \<exists>im. ld pathname = Inr im) \<longrightarrow>
            (\<exists>batch.
               fst (ImageGenerator_getitem ld g i) =
                 (case pre of None \<Rightarrow> Inr batch | Some f \<Rightarrow> f batch) \<and>
               (\<forall>k < length batch. ld (image_list g ! (nat (i * b) + k)) = Inr (batch ! k)) \<and>
               (i < n_batches g - 1 \<longrightarrow> length batch = nat b) \<and>
               (i = n_batches g - 1 \<longrightarrow>
                  length batch =
                    (if int (length (image_list g)) mod b = 0 then nat b
                     else nat (int (length (image_list g)) mod b))))) \<and>
         ((\<exists>pathname \<in> set (batch_pathnames g i). \<exists>e. ld pathname = Inl e) \<longrightarrow>
            (\<exists>e. fst (ImageGenerator_getitem ld g i) = Inl e))"
proof -
  have b: "0 < b" using assms by (rule init_index_in_range_pos)
  note p = init_Inr_params [OF assms(1)]
  have bs: "0 < batch_size g" using b p(1) by simp
  have nb: "n_batches g = int (length (image_list g)) div batch_size g
           + (if int (length (image_list g)) mod batch_size g \<noteq> 0 then 1 else 0)"
    using p(7) b p(1) by (simp add: count_batches_pos)
  have ib: "nat i * nat b = nat (i * b)"
    using assms(2) by (simp add: nat_mult_distrib)
  have sl: "batch_pathnames g i = take (nat b) (drop (nat (i * b)) (image_list g))"
    using batch_pathnames_take_drop [OF bs assms(2)] p(1) ib by simp
  have nth: "\<forall>k < length (batch_pathnames g i).
               batch_pathnames g i ! k = image_list g ! (nat (i * b) + k)"
    unfolding sl by (auto simp: nth_drop)
  note len = batch_length [OF bs assms(2,3) nb, unfolded p(1)]
  have ok: "\<exists>batch.
               fst (ImageGenerator_getitem ld g i) =
                 (case pre of None \<Rightarrow> Inr batch | Some f \<Rightarrow> f batch) \<and>
               (\<forall>k < length batch. ld (image_list g ! (nat (i * b) + k)) = Inr (batch ! k)) \<and>
               (i < n_batches g - 1 \<longrightarrow> length batch = nat b) \<and>
               (i = n_batches g - 1 \<longrightarrow>
                  length batch =
                    (if int (length (image_list g)) mod b = 0 then nat b
                     else nat (int (length (image_list g)) mod b)))"
    if "\<forall>pathname \<in> set (batch_pathnames g i). \<exists>im. ld pathname = Inr im"
  proof -
    from that obtain batch where t: "traverse ld (batch_pathnames g i) = Inr batch"
      using traverse_Inr_iff [of ld "batch_pathnames g i"] by blast
    have l: "length batch = length (batch_pathnames g i)"
      using t by (rule traverse_Inr_length)
    have r: "fst (ImageGenerator_getitem ld g i) =
               (case pre of None \<Rightarrow> Inr batch | Some f \<Rightarrow> f batch)"
      using t p(3) by (simp add: ImageGenerator_getitem_def load_images_def split: option.splits)
    have "ld (image_list g ! (nat (i * b) + k)) = Inr (batch ! k)" if "k < length batch" for k
    proof -
      from traverse_Inr_map [OF t]
      have "map ld (batch_pathnames g i) ! k = map Inr batch ! k" by simp
      with that l have "ld (batch_pathnames g i ! k) = Inr (batch ! k)" by simp
      with that l nth show ?thesis by simp
    qed
    with r l len show ?thesis by auto
  qed
  have bad: "\<exists>e. fst (ImageGenerator_getitem ld g i) = Inl e"
    if "\<exists>pathname \<in> set (batch_pathnames g i). \<exists>e. ld pathname = Inl e"
  proof -
    from that obtain e where "traverse ld (batch_pathnames g i) = Inl e"
      using traverse_Inl by fastforce
    then show ?thesis
      by (simp add: ImageGenerator_getitem_def load_images_def)
  qed
  from b sl nth len ok bad show ?thesis by blast
qed

text \<open>
  Five samples, batch size 2: batch 1 is full, batch 2 is the last and holds one image;
  batch 1 reversed by a preprocessing function; batch 1 with a loader that fails.
\<close>

theorem getitem_contiguous_batch_witness:
  "ImageGenerator_init tiny_dirs rnd_a ''aerialtiny'' None 2 =
     Inr (tiny_gen_a None 2 3 :: string ImageGenerator) \<and>
   ImageGenerator_init tiny_dirs rnd_a ''aerialtiny'' (Some reverse_batch) 2 =
     Inr (tiny_gen_a (Some reverse_batch) 2 3) \<and>
   (0::int) \<le> 1 \<and> 1 < n_batches (tiny_gen_a None 2 3 :: string ImageGenerator) \<and>
   (1::int) < n_batches (tiny_gen_a None 2 3 :: string ImageGenerator) - 1 \<and>
   batch_pathnames (tiny_gen_a None 2 3 :: string ImageGenerator) 1 =
     [''aerialtiny/Barren/b.png'', ''aerialtiny/Shrub/d.png''] \<and>
   path_loader ''aerialtiny/Barren/b.png'' = Inr ''aerialtiny/Barren/b.png'' \<and>
   path_loader ''aerialtiny/Shrub/d.png'' = Inr ''aerialtiny/Shrub/d.png'' \<and>
   fst (ImageGenerator_getitem path_loader (tiny_gen_a None 2 3) 1) =
     Inr [''aerialtiny/Barren/b.png'', ''aerialtiny/Shrub/d.png''] \<and>
   fst (ImageGenerator_getitem path_loader (tiny_gen_a (Some reverse_batch) 2 3) 1) =
     Inr [''aerialtiny/Shrub/d.png'', ''aerialtiny/Barren/b.png''] \<and>
   failing_loader ''aerialtiny/Barren/b.png'' = Inl ImageError \<and>
   fst (ImageGenerator_getitem failing_loader (tiny_gen_a None 2 3) 1) = Inl ImageError \<and>
   (0::int) \<le> 2 \<and> 2 < n_batches (tiny_gen_a None 2 3 :: string ImageGenerator) \<and>
   (2::int) = n_batches (tiny_gen_a None 2 3 :: string ImageGenerator) - 1 \<and>
   batch_pathnames (tiny_gen_a None 2 3 :: string ImageGenerator) 2 =
     [''aerialtiny/Developed/c.png''] \<and>
   path_loader ''aerialtiny/Developed/c.png'' = Inr ''aerialtiny/Developed/c.png'' \<and>
   fst (ImageGenerator_getitem path_loader (tiny_gen_a None 2 3) 2) =
     Inr [''aerialtiny/Developed/c.png''] \<and>
   length [''aerialtiny/Developed/c.png''] = nat (5 mod 2)"
proof -
  have h: "ImageGenerator_init tiny_dirs rnd_a ''aerialtiny'' None 2 =
             Inr (tiny_gen_a None 2 3 :: string ImageGenerator)"
    and hr: "ImageGenerator_init tiny_dirs rnd_a ''aerialtiny'' (Some reverse_batch) 2 =
             Inr (tiny_gen_a (Some reverse_batch) 2 3)"
    by (simp_all add: tiny_init_a)
  have nb: "n_batches (tiny_gen_a pre 2 3 :: string ImageGenerator) = 3" for pre
    by (simp add: tiny_gen_a_def)
  have i1: "(0::int) \<le> 1" "1 < n_batches (tiny_gen_a None 2 3 :: string ImageGenerator)"
    and i1r: "(0::int) \<le> 1" "1 < n_batches (tiny_gen_a (Some reverse_batch) 2 3)"
    and i2: "(0::int) \<le> 2" "2 < n_batches (tiny_gen_a None 2 3 :: string ImageGenerator)"
    by (simp_all add: nb)
  have l: "path_loader pathname = Inr pathname" "failing_loader pathname = Inl ImageError"
    for pathname
    by (simp_all add: path_loader_def failing_loader_def)
  have il: "image_list (tiny_gen_a pre 2 3 :: string ImageGenerator) =
              [''aerialtiny/Barren/a.png'', ''aerialtiny/Shrub/e.png'',
               ''aerialtiny/Barren/b.png'', ''aerialtiny/Shrub/d.png'',
               ''aerialtiny/Developed/c.png'']" for pre
    by (simp add: tiny_gen_a_def)
  note t1 = getitem_contiguous_batch [OF h i1, of path_loader]
  note t1r = getitem_contiguous_batch [OF hr i1r, of path_loader]
  note t1f = getitem_contiguous_batch [OF h i1, of failing_loader]
  note t2 = getitem_contiguous_batch [OF h i2, of path_loader]
  have s1: "batch_pathnames (tiny_gen_a None 2 3 :: string ImageGenerator) 1 =
              [''aerialtiny/Barren/b.png'', ''aerialtiny/Shrub/d.png'']"
    using t1 [THEN conjunct2, THEN conjunct1] by (simp add: il)
  have s1r: "batch_pathnames (tiny_gen_a (Some reverse_batch) 2 3) 1 =
              [''aerialtiny/Barren/b.png'', ''aerialtiny/Shrub/d.png'']"
    using t1r [THEN conjunct2, THEN conjunct1] by (simp add: il)
  have s2: "batch_pathnames (tiny_gen_a None 2 3 :: string ImageGenerator) 2 =
              [''aerialtiny/Developed/c.png'']"
    using t2 [THEN conjunct2, THEN conjunct1] by (simp add: il)
  have ok1: "\<forall>pathname \<in> set (batch_pathnames (tiny_gen_a None 2 3 :: string ImageGenerator) 1).
               \<exists>im. path_loader pathname = Inr im"
    and ok1r: "\<forall>pathname \<in> set (batch_pathnames (tiny_gen_a (Some reverse_batch) 2 3) 1).
               \<exists>im. path_loader pathname = Inr im"
    and ok2: "\<forall>pathname \<in> set (batch_pathnames (tiny_gen_a None 2 3 :: string ImageGenerator) 2).
               \<exists>im. path_loader pathname = Inr im"
    by (simp_all add: l)
  have bad1: "\<exists>pathname \<in> set (batch_pathnames (tiny_gen_a None 2 3 :: string ImageGenerator) 1).
                \<exists>e. failing_loader pathname = Inl e"
    by (auto simp: s1 l)
  from t1 [THEN conjunct2, THEN conjunct2, THEN conjunct2, THEN conjunct2, THEN conjunct2,
      THEN conjunct1, THEN mp, OF ok1]
  obtain batch1 where
    r1: "fst (ImageGenerator_getitem path_loader (tiny_gen_a None 2 3) 1) = Inr batch1"
    by auto
  from t1r [THEN conjunct2, THEN conjunct2, THEN conjunct2, THEN conjunct2, THEN conjunct2,
      THEN conjunct1, THEN mp, OF ok1r]
  obtain batch1r where
    r1r: "fst (ImageGenerator_getitem path_loader (tiny_gen_a (Some reverse_batch) 2 3) 1) =
            reverse_batch batch1r"
    by auto
  from t2 [THEN conjunct2, THEN conjunct2, THEN conjunct2, THEN conjunct2, THEN conjunct2,
      THEN conjunct1, THEN mp, OF ok2]
  obtain batch2 where
    r2: "fst (ImageGenerator_getitem path_loader (tiny_gen_a None 2 3) 2) = Inr batch2"
    by auto
  from t1f [THEN conjunct2, THEN conjunct2, THEN conjunct2, THEN conjunct2, THEN conjunct2,
      THEN conjunct2, THEN mp, OF bad1]
  obtain e where
    rf: "fst (ImageGenerator_getitem failing_loader (tiny_gen_a None 2 3) 1) = Inl e"
    by auto
  have pf: "preprocess_fn (tiny_gen_a pre 2 3 :: string ImageGenerator) = pre" for pre
    by (simp add: tiny_gen_a_def)
  have c1: "fst (ImageGenerator_getitem path_loader (tiny_gen_a None 2 3) 1) =
             Inr [''aerialtiny/Barren/b.png'', ''aerialtiny/Shrub/d.png'']"
    by (simp add: ImageGenerator_getitem_def load_images_def s1 pf l)
  have c1r: "fst (ImageGenerator_getitem path_loader (tiny_gen_a (Some reverse_batch) 2 3) 1) =
       Inr [''aerialtiny/Shrub/d.png'', ''aerialtiny/Barren/b.png'']"
    by (simp add: ImageGenerator_getitem_def load_images_def s1r pf l reverse_batch_def)
  have c1f: "fst (ImageGenerator_getitem failing_loader (tiny_gen_a None 2 3) 1) = Inl ImageError"
    by (simp add: ImageGenerator_getitem_def load_images_def s1 pf l)
  have c2: "fst (ImageGenerator_getitem path_loader (tiny_gen_a None 2 3) 2) =
       Inr [''aerialtiny/Developed/c.png'']"
    by (simp add: ImageGenerator_getitem_def load_images_def s2 pf l)
  have b1: "batch1 = [''aerialtiny/Barren/b.png'', ''aerialtiny/Shrub/d.png'']"
    using r1 unfolding c1 by simp
  have b1r: "rev batch1r = [''aerialtiny/Shrub/d.png'', ''aerialtiny/Barren/b.png'']"
    using r1r unfolding c1r by (simp add: reverse_batch_def)
  have b2: "batch2 = [''aerialtiny/Developed/c.png'']"
    using r2 unfolding c2 by simp
  have bf: "e = ImageError"
    using rf unfolding c1f by simp
  from b1 b1r b2 bf have "length batch1 = 2 \<and> length batch1r = 2 \<and> length batch2 = 1"
    by (metis length_rev length_Cons list.size(3) One_nat_def Suc_1)
  with h hr s1 s2 c1 c1r c1f c2 show ?thesis
    by (simp add: nb l)
qed

subsection \<open>Indices past the last batch\<close>

text \<open>
  Claim C10, as amended: for a generator constructed with a positive batch size and an
  index \<open>i \<ge> n_batches\<close>, the slice that \<open>__getitem__(i)\<close> takes lies past the end of the
  image list and is empty, so the call loads no file and raises no out-of-range error
  from the slice, whatever the loader does. Without a preprocessing function it returns
  the empty batch; with one, it returns or raises what that function does on the empty
  array.
\<close>

theorem getitem_past_end_is_empty:
  assumes "ImageGenerator_init fs rnd img_dir pre b = Inr g" and "0 < b" and "n_batches g \<le> i"
  shows "batch_pathnames g i = [] \<and>
         ImageGenerator_getitem ld g i = ((case pre of None \<Rightarrow> Inr [] | Some f \<Rightarrow> f []), g)"
proof -
  note p = init_Inr_params [OF assms(1)]
  have bs: "0 < batch_size g" using assms(2) p(1) by simp
  have nb: "n_batches g = int (length (image_list g)) div batch_size g
           + (if int (length (image_list g)) mod batch_size g \<noteq> 0 then 1 else 0)"
    using p(7) assms(2) p(1) by (simp add: count_batches_pos)
  have nb0: "0 \<le> n_batches g"
    unfolding nb using bs by (simp add: pos_imp_zdiv_nonneg_iff)
  with assms(3) have i0: "0 \<le> i" by simp
  have "length (image_list g) \<le> nat (n_batches g) * nat (batch_size g)"
    using bs nb by (rule batches_cover_nat)
  also have "\<dots> \<le> nat i * nat (batch_size g)"
    using assms(3) by (intro mult_le_mono1 nat_mono)
  finally have "drop (nat i * nat (batch_size g)) (image_list g) = []" by simp
  then have e: "batch_pathnames g i = []"
    using batch_pathnames_take_drop [OF bs i0] by simp
  then show ?thesis
    using p(3) by (simp add: ImageGenerator_getitem_def load_images_def split: option.splits)
qed

text \<open>
  Index 3 of three batches, with a loader that would fail on any file: the empty batch
  without a preprocessing function, the empty batch from one that accepts the empty
  array, and \<open>IndexError\<close> from one that does not.
\<close>

theorem getitem_past_end_is_empty_witness:
  "ImageGenerator_init tiny_dirs rnd_a ''aerialtiny'' None 2 =
     Inr (tiny_gen_a None 2 3 :: string ImageGenerator) \<and>
   ImageGenerator_init tiny_dirs rnd_a ''aerialtiny'' (Some reverse_batch) 2 =
     Inr (tiny_gen_a (Some reverse_batch) 2 3) \<and>
   ImageGenerator_init tiny_dirs rnd_a ''aerialtiny'' (Some strict_batch) 2 =
     Inr (tiny_gen_a (Some strict_batch) 2 3) \<and>
   (0::int) < 2 \<and> n_batches (tiny_gen_a None 2 3 :: string ImageGenerator) \<le> 3 \<and>
   batch_pathnames (tiny_gen_a None 2 3 :: string ImageGenerator) 3 = [] \<and>
   ImageGenerator_getitem failing_loader (tiny_gen_a None 2 3) 3 =
     (Inr [], tiny_gen_a None 2 3) \<and>
   ImageGenerator_getitem failing_loader (tiny_gen_a (Some reverse_batch) 2 3) 3 =
     (Inr [], tiny_gen_a (Some reverse_batch) 2 3) \<and>
   ImageGenerator_getitem failing_loader (tiny_gen_a (Some strict_batch) 2 3) 3 =
     (Inl IndexError, tiny_gen_a (Some strict_batch) 2 3)"
proof -
  have h: "ImageGenerator_init tiny_dirs rnd_a ''aerialtiny'' pre 2 =
             Inr (tiny_gen_a pre 2 3 :: string ImageGenerator)" for pre
    by (simp add: tiny_init_a)
  have p: "(0::int) < 2" by simp
  have i: "n_batches (tiny_gen_a pre 2 3 :: string ImageGenerator) \<le> 3" for pre
    by (simp add: tiny_gen_a_def)
  from getitem_past_end_is_empty [OF h p i, of None failing_loader]
    getitem_past_end_is_empty [OF h p i, of "Some reverse_batch" failing_loader]
    getitem_past_end_is_empty [OF h p i, of "Some strict_batch" failing_loader]
  show ?thesis
    using h i by (simp add: reverse_batch_def strict_batch_def)
qed

text \<open>
  With the negative batch size \<open>-1\<close> the batch count is \<open>-5\<close>, so index 0 is not below
  it; the slice \<open>image_list[0:-1]\<close> holds the first four paths, the call returns a batch
  of four images, and it fails when a file does not load. With the batch size 2 and a
  preprocessing function that does not accept the empty array, the call at index 3 of
  three batches raises.
\<close>

theorem getitem_past_end_counterexample:
  "ImageGenerator_init tiny_dirs rnd_a ''aerialtiny'' None (- 1) =
     Inr (tiny_gen_a None (- 1) (- 5) :: string ImageGenerator) \<and>
   n_batches (tiny_gen_a None (- 1) (- 5) :: string ImageGenerator) \<le> 0 \<and>
   batch_pathnames (tiny_gen_a None (- 1) (- 5) :: string ImageGenerator) 0 =
     [''aerialtiny/Barren/a.png'', ''aerialtiny/Shrub/e.png'', ''aerialtiny/Barren/b.png'',
      ''aerialtiny/Shrub/d.png''] \<and>
   fst (ImageGenerator_getitem path_loader (tiny_gen_a None (- 1) (- 5)) 0) =
     Inr [''aerialtiny/Barren/a.png'', ''aerialtiny/Shrub/e.png'', ''aerialtiny/Barren/b.png'',
      ''aerialtiny/Shrub/d.png''] \<and>
   fst (ImageGenerator_getitem failing_loader (tiny_gen_a None (- 1) (- 5)) 0) =
     Inl ImageError \<and>
   ImageGenerator_init tiny_dirs rnd_a ''aerialtiny'' (Some strict_batch) 2 =
     Inr (tiny_gen_a (Some strict_batch) 2 3) \<and>
   n_batches (tiny_gen_a (Some strict_batch) 2 3) \<le> 3 \<and>
   fst (ImageGenerator_getitem path_loader (tiny_gen_a (Some strict_batch) 2 3) 3) =
     Inl IndexError"
proof -
  have s: "batch_pathnames (tiny_gen_a None (- 1) (- 5) :: string ImageGenerator) 0 =
     [''aerialtiny/Barren/a.png'', ''aerialtiny/Shrub/e.png'', ''aerialtiny/Barren/b.png'',
      ''aerialtiny/Shrub/d.png'']"
    and s3: "batch_pathnames (tiny_gen_a (Some strict_batch) 2 3) 3 = []"
    by (simp_all add: batch_pathnames_def py_slice_def slice_bound_def tiny_gen_a_def)
  have pf: "preprocess_fn (tiny_gen_a pre b nb :: string ImageGenerator) = pre"
    and nb: "n_batches (tiny_gen_a pre b nb :: string ImageGenerator) = nb" for pre b nb
    by (simp_all add: tiny_gen_a_def)
  show ?thesis
    by (simp add: tiny_init_a ImageGenerator_getitem_def load_images_def s s3 pf nb
        path_loader_def failing_loader_def strict_batch_def)
qed

subsection \<open>The preprocessing function\<close>

text \<open>
  Claim C5: for every batch request on a constructed generator, when no preprocessing
  function was given to the constructor the call returns the decoded batch (the images
  of the slice, loaded in order) as it is, and when a function \<open>f\<close> was given it returns
  \<open>f\<close> applied to that whole decoded batch. A file that fails to load makes the call
  raise in both cases.
\<close>

theorem getitem_preprocessing:
  assumes "ImageGenerator_init fs rnd img_dir pre b = Inr g"
  shows "(pre = None \<longrightarrow>
            fst (ImageGenerator_getitem ld g i) = traverse ld (batch_pathnames g i)) \<and>
         (\<forall>f. pre = Some f \<longrightarrow>
            fst (ImageGenerator_getitem ld g i) =
              (case traverse ld (batch_pathnames g i) of
                 Inl e \<Rightarrow> Inl e
               | Inr images \<Rightarrow> f images))"
  using init_Inr_params(3) [OF assms]
  by (auto simp: ImageGenerator_getitem_def load_images_def split: sum.splits)

text \<open>Batch 0 without a preprocessing function, and with one that reverses the batch.\<close>

theorem getitem_preprocessing_witness:
  "ImageGenerator_init tiny_dirs rnd_a ''aerialtiny'' None 2 =
     Inr (tiny_gen_a None 2 3 :: string ImageGenerator) \<and>
   fst (ImageGenerator_getitem path_loader (tiny_gen_a None 2 3) 0) =
     Inr [''aerialtiny/Barren/a.png'', ''aerialtiny/Shrub/e.png''] \<and>
   ImageGenerator_init tiny_dirs rnd_a ''aerialtiny'' (Some reverse_batch) 2 =
     Inr (tiny_gen_a (Some reverse_batch) 2 3) \<and>
   fst (ImageGenerator_getitem path_loader (tiny_gen_a (Some reverse_batch) 2 3) 0) =
     reverse_batch [''aerialtiny/Barren/a.png'', ''aerialtiny/Shrub/e.png'']"
proof -
  have h1: "ImageGenerator_init tiny_dirs rnd_a ''aerialtiny'' None 2 =
              Inr (tiny_gen_a None 2 3 :: string ImageGenerator)"
    and h2: "ImageGenerator_init tiny_dirs rnd_a ''aerialtiny'' (Some reverse_batch) 2 =
              Inr (tiny_gen_a (Some reverse_batch) 2 3)"
    by (simp_all add: tiny_init_a)
  have s: "batch_pathnames (tiny_gen_a pre 2 3 :: string ImageGenerator) 0 =
             [''aerialtiny/Barren/a.png'', ''aerialtiny/Shrub/e.png'']" for pre
    by (simp add: batch_pathnames_def py_slice_def slice_bound_def tiny_gen_a_def)
  from getitem_preprocessing [OF h1, of path_loader 0]
    getitem_preprocessing [OF h2, of path_loader 0]
  show ?thesis
    using h1 h2 by (simp add: s path_loader_def)
qed

subsection \<open>Shuffling\<close>

text \<open>
  Claim C7: two constructions over the same input directory, with any two random sources
  (and any preprocessing functions and batch sizes), give sample lists that are
  permutations of each other: the same multiset and the same set of (file path, label)
  pairs and the same count; only the order may differ.
\<close>

theorem shuffles_are_permutations:
  assumes "ImageGenerator_init fs rnd1 img_dir pre1 b1 = Inr g1"
    and "ImageGenerator_init fs rnd2 img_dir pre2 b2 = Inr g2"
  shows "mset (zip (image_list g1) (label_list g1)) = mset (zip (image_list g2) (label_list g2)) \<and>
         set (zip (image_list g1) (label_list g1)) = set (zip (image_list g2) (label_list g2)) \<and>
         length (image_list g1) = length (image_list g2) \<and>
         length (label_list g1) = length (label_list g2)"
proof -
  from init_Inr_fields [OF assms(1)] obtain s1 where
    s1: "labeled_image_list fs img_dir = Inr s1"
    and z1: "image_list g1 = map fst (shuffle rnd1 s1)" "label_list g1 = map snd (shuffle rnd1 s1)"
    by blast
  from init_Inr_fields [OF assms(2)] obtain s2 where
    s2: "labeled_image_list fs img_dir = Inr s2"
    and z2: "image_list g2 = map fst (shuffle rnd2 s2)" "label_list g2 = map snd (shuffle rnd2 s2)"
    by blast
  from s1 s2 have eq: "s2 = s1" by simp
  have m: "mset (zip (image_list g1) (label_list g1)) = mset (zip (image_list g2) (label_list g2))"
    unfolding z1 z2 eq by (simp add: zip_map_fst_snd shuffle_mset)
  then have "set (zip (image_list g1) (label_list g1)) = set (zip (image_list g2) (label_list g2))"
    by (rule mset_eq_setD)
  with m show ?thesis
    unfolding z1 z2 eq by (simp add: shuffle_length)
qed

text \<open>The two random sources order the five samples differently.\<close>

theorem shuffles_are_permutations_witness:
  "ImageGenerator_init tiny_dirs rnd_a ''aerialtiny'' None 2 =
     Inr (tiny_gen_a None 2 3 :: string ImageGenerator) \<and>
   ImageGenerator_init tiny_dirs rnd_b ''aerialtiny'' None 2 =
     Inr (tiny_gen_b None 2 3 :: string ImageGenerator) \<and>
   image_list (tiny_gen_a None 2 3 :: string ImageGenerator) \<noteq>
     image_list (tiny_gen_b None 2 3 :: string ImageGenerator) \<and>
   mset (zip (image_list (tiny_gen_a None 2 3 :: string ImageGenerator))
             (label_list (tiny_gen_a None 2 3 :: string ImageGenerator))) =
   mset (zip (image_list (tiny_gen_b None 2 3 :: string ImageGenerator))
             (label_list (tiny_gen_b None 2 3 :: string ImageGenerator)))"
proof -
  have h1: "ImageGenerator_init tiny_dirs rnd_a ''aerialtiny'' None 2 =
              Inr (tiny_gen_a None 2 3 :: string ImageGenerator)"
    by (simp add: tiny_init_a)
  have h2: "ImageGenerator_init tiny_dirs rnd_b ''aerialtiny'' None 2 =
              Inr (tiny_gen_b None 2 3 :: string ImageGenerator)"
    by (simp add: tiny_init_b)
  have d: "image_list (tiny_gen_a None 2 3 :: string ImageGenerator) \<noteq>
             image_list (tiny_gen_b None 2 3 :: string ImageGenerator)"
    by (simp add: tiny_gen_a_def tiny_gen_b_def)
  from shuffles_are_permutations [OF h1 h2] show ?thesis
    using h1 h2 d by simp
qed

subsection \<open>The object after construction\<close>

lemma call_method_frame: "snd (call_method ld c g) = g"
  by (cases c)
    (simp_all add: ImageGenerator_len_def ImageGenerator_getitem_def load_images_def
      get_labels_def split: sum.splits option.splits prod.splits)

lemma run_calls_frame: "snd (run_calls ld cs g) = g"
proof (induction cs arbitrary: g)
  case Nil
  then show ?case by simp
next
  case (Cons c cs)
  obtain r g' where c: "call_method ld c g = (r, g')" by (cases "call_method ld c g")
  then have g': "g' = g" using call_method_frame [of ld c g] by simp
  obtain rs g'' where cs: "run_calls ld cs g = (rs, g'')" by (cases "run_calls ld cs g")
  then have "g'' = g" using Cons.IH [of g] by simp
  with c g' cs show ?case by simp
qed

text \<open>
  Claim C9: \<open>__len__\<close>, \<open>__getitem__\<close> and \<open>get_labels\<close> leave the object as they found
  it, and so does any sequence of such calls: \<open>image_list\<close>, \<open>label_list\<close>,
  \<open>batch_size\<close>, \<open>n_batches\<close>, \<open>num_classes\<close> and \<open>preprocess_fn\<close> keep the values
  the constructor gave them. The order fixed at construction stays, and nothing is
  inserted or deleted.
\<close>

theorem methods_leave_object_unchanged:
  "snd (ImageGenerator_len g) = g \<and>
   snd (ImageGenerator_getitem ld g i) = g \<and>
   snd (get_labels g) = g \<and>
   snd (run_calls ld cs g) = g"
  using call_method_frame [of ld Len g] call_method_frame [of ld "GetItem i" g]
    call_method_frame [of ld GetLabels g] run_calls_frame [of ld cs g]
  by (simp split: prod.splits)

subsection \<open>Labels\<close>







subsection \<open>Feature rows and labels\<close>

lemma getitem_frame: "snd (ImageGenerator_getitem ld g i) = g"
  by (simp add: ImageGenerator_getitem_def load_images_def split: sum.splits option.splits)

lemma predict_loop_eq:
  "predict_loop p ld steps g =
     (case traverse (\<lambda>i. fst (ImageGenerator_getitem ld g i)) steps of
        Inl e \<Rightarrow> Inl e
      | Inr xs \<Rightarrow> Inr (map p xs), g)"
proof (induction steps)
  case Nil
  then show ?case by simp
next
  case (Cons i steps)
  obtain r g' where gi: "ImageGenerator_getitem ld g i = (r, g')"
    by (cases "ImageGenerator_getitem ld g i")
  with getitem_frame [of ld g i] have g': "g' = g" by simp
  show ?case
    using Cons.IH gi g' by (cases r) (simp_all split: sum.splits)
qed

lemma getitem_Inr_loads:
  assumes "fst (ImageGenerator_getitem ld g i) = Inr x"
  shows "\<exists>ys. traverse ld (batch_pathnames g i) = Inr ys"
  using assms
  by (auto simp: ImageGenerator_getitem_def load_images_def split: sum.splits option.splits)

text \<open>When every batch of the generator loads, every file of the image list loads.\<close>

lemma all_batches_load:
  assumes b: "0 < batch_size g"
    and nb: "n_batches g = int (length (image_list g)) div batch_size g
           + (if int (length (image_list g)) mod batch_size g \<noteq> 0 then 1 else 0)"
    and t: "traverse (\<lambda>i. fst (ImageGenerator_getitem ld g i)) (py_range (n_batches g)) = Inr xs"
  shows "\<exists>imgs. traverse ld (image_list g) = Inr imgs"
proof -
  have "\<exists>y. ld pathname = Inr y" if "pathname \<in> set (image_list g)" for pathname
  proof -
    from that concat_batch_pathnames [OF b nb] obtain i where
      i: "i \<in> set (py_range (n_batches g))" and m: "pathname \<in> set (batch_pathnames g i)"
      by (metis (no_types, lifting) set_concat UN_E image_iff list.set_map)
    from t i have "\<exists>x. fst (ImageGenerator_getitem ld g i) = Inr x"
      using traverse_Inr_iff [of "\<lambda>i. fst (ImageGenerator_getitem ld g i)" "py_range (n_batches g)"]
      by blast
    then have "\<exists>ys. traverse ld (batch_pathnames g i) = Inr ys"
      using getitem_Inr_loads by blast
    with m show ?thesis
      using traverse_Inr_iff [of ld "batch_pathnames g i"] by blast
  qed
  then show ?thesis
    using traverse_Inr_iff [of ld "image_list g"] by blast
qed

lemma batch_nonempty:
  assumes b: "0 < batch_size g" and i: "0 \<le> i" "i < n_batches g"
    and nb: "n_batches g = int (length (image_list g)) div batch_size g
           + (if int (length (image_list g)) mod batch_size g \<noteq> 0 then 1 else 0)"
  shows "batch_pathnames g i \<noteq> []"
proof -
  note len = batch_length [OF b i nb]
  have m: "0 \<le> int (length (image_list g)) mod batch_size g" using b by simp
  have "0 < length (batch_pathnames g i)"
  proof (cases "i < n_batches g - 1")
    case True
    with len b show ?thesis by simp
  next
    case False
    with i(2) have last: "i = n_batches g - 1" by simp
    show ?thesis
    proof (cases "int (length (image_list g)) mod batch_size g = 0")
      case True
      with len last b show ?thesis by simp
    next
      case False
      with m have "0 < int (length (image_list g)) mod batch_size g" by linarith
      with len last False show ?thesis by simp
    qed
  qed
  then show ?thesis by simp
qed

text \<open>
  The batches \<open>predict_generator\<close> asks for, when every file loads and the preprocessing
  function works row by row on every array that is not empty.
\<close>

lemma all_batches_decoded:
  assumes b: "0 < batch_size g"
    and nb: "n_batches g = int (length (image_list g)) div batch_size g
           + (if int (length (image_list g)) mod batch_size g \<noteq> 0 then 1 else 0)"
    and ld: "traverse ld (image_list g) = Inr imgs"
    and pf: "preprocess_fn g = Some preprocess_input"
    and rw: "\<forall>xs. xs \<noteq> [] \<longrightarrow> preprocess_input xs = Inr (map normalise xs)"
  shows "traverse (\<lambda>i. fst (ImageGenerator_getitem ld g i)) (py_range (n_batches g)) =
           Inr (map (\<lambda>i. map normalise
                         (take (nat (batch_size g)) (drop (nat i * nat (batch_size g)) imgs)))
                  (py_range (n_batches g)))"
proof (rule traverse_all_Inr)
  fix i
  assume "i \<in> set (py_range (n_batches g))"
  then have i: "0 \<le> i" "i < n_batches g" by (auto simp: py_range_def)
  let ?chunk = "take (nat (batch_size g)) (drop (nat i * nat (batch_size g)) imgs)"
  have "length ?chunk = length (batch_pathnames g i)"
    using traverse_Inr_length [OF ld] by (simp add: batch_pathnames_take_drop [OF b i(1)])
  with batch_nonempty [OF b i nb] have "?chunk \<noteq> []" by auto
  with rw have "preprocess_input ?chunk = Inr (map normalise ?chunk)" by blast
  with getitem_decoded [OF b i(1) ld] pf
  show "fst (ImageGenerator_getitem ld g i) = Inr (map normalise ?chunk)"
    by simp
qed

lemma predict_generator_rows:
  assumes b: "0 < batch_size g"
    and nb: "n_batches g = int (length (image_list g)) div batch_size g
           + (if int (length (image_list g)) mod batch_size g \<noteq> 0 then 1 else 0)"
    and pf: "preprocess_fn g = Some preprocess_input"
    and rw: "\<forall>xs. xs \<noteq> [] \<longrightarrow> preprocess_input xs = Inr (map normalise xs)"
    and pg: "predict_generator (map featurise) ld g = (Inr features, g')"
  shows "\<exists>imgs. traverse ld (image_list g) = Inr imgs \<and>
           features = map (\<lambda>im. featurise (normalise im)) imgs \<and> g' = g"
proof -
  let ?get = "\<lambda>i. fst (ImageGenerator_getitem ld g i)"
  have pl: "predict_loop (map featurise) ld (py_range (n_batches g)) g =
              (case traverse ?get (py_range (n_batches g)) of
                 Inl e \<Rightarrow> Inl e
               | Inr xs \<Rightarrow> Inr (map (map featurise) xs), g)"
    by (rule predict_loop_eq)
  obtain r where r: "traverse ?get (py_range (n_batches g)) = r" by simp
  have "\<exists>xs. r = Inr xs \<and> features = concat (map (map featurise) xs) \<and> g' = g"
  proof (cases r)
    case (Inl e)
    with pg pl r show ?thesis
      by (simp add: predict_generator_def ImageGenerator_len_def)
  next
    case (Inr xs)
    with pg pl r show ?thesis
      by (simp add: predict_generator_def ImageGenerator_len_def)
  qed
  with r obtain xs where
    t: "traverse ?get (py_range (n_batches g)) = Inr xs"
    and f: "features = concat (map (map featurise) xs)" and g': "g' = g"
    by blast
  from all_batches_load [OF b nb t] obtain imgs where
    ld: "traverse ld (image_list g) = Inr imgs"
    by blast
  let ?chunk = "\<lambda>i. take (nat (batch_size g)) (drop (i * nat (batch_size g)) imgs)"
  from all_batches_decoded [OF b nb ld pf rw] t
  have xs: "xs = map (\<lambda>i. map normalise (?chunk i)) [0..<nat (n_batches g)]"
    by (simp add: py_range_def comp_def)
  have len: "length imgs \<le> nat (n_batches g) * nat (batch_size g)"
    using batches_cover_nat [OF b nb] traverse_Inr_length [OF ld] by simp
  have "features = concat (map (\<lambda>i. map (\<lambda>im. featurise (normalise im)) (?chunk i))
                      [0..<nat (n_batches g)])"
    unfolding f xs by (simp add: comp_def)
  also have "\<dots> = map (\<lambda>im. featurise (normalise im)) (concat (map ?chunk [0..<nat (n_batches g)]))"
    by (simp add: map_concat comp_def)
  also have "concat (map ?chunk [0..<nat (n_batches g)]) = imgs"
    using len by (simp add: concat_chunks)
  finally show ?thesis using ld g' by blast
qed

text \<open>
  Claim C3: take a run of \<open>create_bottleneck_features\<close> that writes its file, with a
  normalisation and a network that work image by image (row \<open>k\<close> of their output depends
  on row \<open>k\<close> of their input only; the normalisation may raise on the empty array). Then
  every file of the shuffled sample list was decoded, the \<open>features\<close> array and the
  \<open>labels\<close> array both have as many rows as there are samples, and for every position
  \<open>i\<close> the \<open>i\<close>-th feature row is computed from the image of the \<open>i\<close>-th sample and the
  \<open>i\<close>-th label is the label of the \<open>i\<close>-th sample.
\<close>

theorem bottleneck_rows_aligned:
  assumes "create_bottleneck_features fs rnd ld preprocess_input predict_on_batch FLAGS = Inr out"
    and "\<forall>xs. xs \<noteq> [] \<longrightarrow> preprocess_input xs = Inr (map normalise xs)"
    and "\<forall>xs. predict_on_batch xs = map featurise xs"
  shows "\<exists>samples imgs.
           labeled_image_list fs (input_data_dir FLAGS) = Inr samples \<and>
           traverse ld (map fst (shuffle rnd samples)) = Inr imgs \<and>
           length (features_dset out) = length samples \<and>
           length (labels_dset out) = length samples \<and>
           (\<forall>i < length samples.
              ld (fst (shuffle rnd samples ! i)) = Inr (imgs ! i) \<and>
              features_dset out ! i = featurise (normalise (imgs ! i)) \<and>
              labels_dset out ! i = snd (shuffle rnd samples ! i))"
proof -
  have pb: "predict_on_batch = map featurise"
    using assms(3) by auto
  from assms(1) obtain g where
    init: "ImageGenerator_init fs rnd (input_data_dir FLAGS) (Some preprocess_input) 64 = Inr g"
    by (auto simp: create_bottleneck_features_def split: sum.splits)
  obtain r g' where pg: "predict_generator (map featurise) ld g = (r, g')"
    by (cases "predict_generator (map featurise) ld g")
  from assms(1) init pg obtain features where
    r: "r = Inr features"
    and out: "features_dset out = features" "labels_dset out = fst (get_labels g')"
    unfolding pb
    by (cases r) (auto simp: create_bottleneck_features_def split: prod.splits)
  note p = init_Inr_params [OF init]
  have b: "0 < batch_size g" using p(1) by simp
  have nb: "n_batches g = int (length (image_list g)) div batch_size g
           + (if int (length (image_list g)) mod batch_size g \<noteq> 0 then 1 else 0)"
    using p(7) p(1) by (simp add: count_batches_pos)
  from predict_generator_rows [OF b nb p(3) assms(2) pg [unfolded r]] obtain imgs where
    ld: "traverse ld (image_list g) = Inr imgs"
    and f: "features = map (\<lambda>im. featurise (normalise im)) imgs" and g': "g' = g"
    by blast
  from init_Inr_fields [OF init] obtain samples where
    s: "labeled_image_list fs (input_data_dir FLAGS) = Inr samples"
    and z: "image_list g = map fst (shuffle rnd samples)"
           "label_list g = map snd (shuffle rnd samples)"
    by blast
  have n: "length imgs = length samples"
    using traverse_Inr_length [OF ld] z(1) by (simp add: shuffle_length)
  have loads: "ld (fst (shuffle rnd samples ! i)) = Inr (imgs ! i)" if "i < length samples" for i
  proof -
    from traverse_Inr_map [OF ld] have "map ld (image_list g) ! i = map Inr imgs ! i" by simp
    with that n z(1) show ?thesis by (simp add: shuffle_length)
  qed
  have labels: "labels_dset out = map snd (shuffle rnd samples)"
    using out(2) g' z(2) by (simp add: get_labels_def)
  have "\<forall>i < length samples.
           ld (fst (shuffle rnd samples ! i)) = Inr (imgs ! i) \<and>
           features_dset out ! i = featurise (normalise (imgs ! i)) \<and>
           labels_dset out ! i = snd (shuffle rnd samples ! i)"
    using loads n by (simp add: out(1) f labels shuffle_length)
  moreover have "length (features_dset out) = length samples"
    using n by (simp add: out(1) f)
  moreover have "length (labels_dset out) = length samples"
    by (simp add: labels shuffle_length)
  ultimately show ?thesis
    using s ld z(1) by auto
qed

lemma tiny_run:
  "create_bottleneck_features tiny_dirs rnd_a path_loader strip_dirs (map folder_of)
     tiny_flags = Inr tiny_out"
  by code_simp

text \<open>Five samples in one batch of at most 64; row 1 belongs to \<open>Shrub/e.png\<close>.\<close>

theorem bottleneck_rows_aligned_witness:
  "create_bottleneck_features tiny_dirs rnd_a path_loader strip_dirs (map folder_of)
     tiny_flags = Inr tiny_out \<and>
   strip_dirs [''aerialtiny/Shrub/e.png''] = Inr (map strip_dir [''aerialtiny/Shrub/e.png'']) \<and>
   (\<exists>samples imgs.
      labeled_image_list tiny_dirs (input_data_dir tiny_flags) = Inr samples \<and>
      traverse path_loader (map fst (shuffle rnd_a samples)) = Inr imgs \<and>
      length (features_dset tiny_out) = length samples \<and>
      length (labels_dset tiny_out) = length samples \<and>
      1 < length samples \<and>
      path_loader (fst (shuffle rnd_a samples ! 1)) = Inr (imgs ! 1) \<and>
      features_dset tiny_out ! 1 = folder_of (strip_dir (imgs ! 1)) \<and>
      labels_dset tiny_out ! 1 = snd (shuffle rnd_a samples ! 1))"
proof -
  have a1: "\<forall>xs. xs \<noteq> [] \<longrightarrow> strip_dirs xs = Inr (map strip_dir xs)"
    and a2: "\<forall>xs. map folder_of xs = map folder_of xs"
    by (simp_all add: strip_dirs_def)
  from bottleneck_rows_aligned [OF tiny_run a1 a2] obtain samples imgs where
    s: "labeled_image_list tiny_dirs (input_data_dir tiny_flags) = Inr samples"
    and t: "traverse path_loader (map fst (shuffle rnd_a samples)) = Inr imgs"
    and n: "length (features_dset tiny_out) = length samples"
           "length (labels_dset tiny_out) = length samples"
    and rows: "\<forall>i < length samples.
         path_loader (fst (shuffle rnd_a samples ! i)) = Inr (imgs ! i) \<and>
         features_dset tiny_out ! i = folder_of (strip_dir (imgs ! i)) \<and>
         labels_dset tiny_out ! i = snd (shuffle rnd_a samples ! i)"
    by blast
  from n(2) have one: "1 < length samples" by (simp add: tiny_out_def)
  with rows have
    "path_loader (fst (shuffle rnd_a samples ! 1)) = Inr (imgs ! 1) \<and>
     features_dset tiny_out ! 1 = folder_of (strip_dir (imgs ! 1)) \<and>
     labels_dset tiny_out ! 1 = snd (shuffle rnd_a samples ! 1)"
    by blast
  moreover have
    "strip_dirs [''aerialtiny/Shrub/e.png''] = Inr (map strip_dir [''aerialtiny/Shrub/e.png''])"
    using a1 by simp
  ultimately show ?thesis using s t n one tiny_run by blast
qed

end
